theory Spec2Isabelle
  imports Main
begin

section \<open>The HTTP Logstash engine (salt/engines/http\_logstash.py)\<close>

text \<open>
  The engine reads events from the event bus, filters them by tag and by function name
  and posts the data of every accepted event to a Logstash endpoint. The module has two
  functions, \<open>_logstash\<close> and \<open>start\<close>; both are embedded below, together with the values
  they handle and the collaborators they call.
\<close>

subsection \<open>Values\<close>

text \<open>
  The exceptions the code can raise: the three built-in ones that the body of \<open>start\<close>
  or the call of \<open>start\<close> itself can raise, and an exception raised by a collaborator.
\<close>

datatype error = TypeError | KeyError | AttributeError | Raised string

text \<open>
  A configuration value as the host hands it to \<open>start\<close>: \<open>None\<close>, a string, a list of
  strings or a tuple of strings.
\<close>

datatype cfg = CNone | CStr string | CList "string list" | CTuple "string list"

text \<open>
  A value of the event's data mapping, as the bus decodes it: the values JSON has, and
  byte strings, which JSON has not.
\<close>

datatype val = VNone | VBool bool | VInt int | VStr string | VBytes string
  | VList "val list" | VDict "(string \<times> val) list"

text \<open>
  An event as \<open>get_event(full=True)\<close> returns it: a dictionary with the keys
  \<open>tag\<close> and \<open>data\<close>.
\<close>

record event =
  ev_tag :: string
  ev_data :: "string \<rightharpoonup> val"

text \<open>What \<open>get_event\<close> returns: \<open>None\<close>, an empty dictionary or an event.\<close>

datatype got = GNone | GEmpty | GEvent event

text \<open>The keys of \<open>__opts__\<close> that the engine reads.\<close>

record opts =
  opt_id :: "string option"
  opt_sock_dir :: "string option"
  opt_transport :: "string option"

text \<open>The arguments of one call of \<open>salt.utils.http.query\<close>.\<close>

record request =
  req_url :: cfg
  req_method :: string
  req_header_dict :: "(string \<times> string) list"
  req_data :: string
  req_decode :: bool
  req_status :: bool

text \<open>What \<open>salt.utils.http.query\<close> returns: a status code and a body.\<close>

record response =
  resp_status :: int
  resp_body :: string

text \<open>
  The collaborators, none of them part of the module: the standard library's
  \<open>fnmatch.fnmatch\<close> (name first, pattern second), \<open>salt.utils.json.dumps\<close>, which
  returns a document or raises, and \<open>salt.utils.http.query\<close>, which returns a response
  or raises; its outcome may differ from one call to the next, so it also takes the number
  of queries issued before.
\<close>

record env =
  fnmatch :: "string \<Rightarrow> string \<Rightarrow> bool"
  dumps :: "(string \<rightharpoonup> val) \<Rightarrow> error + string"
  query :: "nat \<Rightarrow> request \<Rightarrow> error + response"

text \<open>What the engine does, in order.\<close>

datatype inst = Master | Minion

datatype action =
    Subscribe inst string string
  | GetEvent
  | Logstash cfg "string \<rightharpoonup> val"
  | Query request
  | Close

text \<open>
  The loop of \<open>start\<close> never returns: on a finite prefix of what the bus yields it is
  either still waiting for the next event or has been left by an exception.
\<close>

datatype status = Waiting | Aborted error

subsection \<open>Python's truth values and operators\<close>

definition cfg_truthy :: "cfg \<Rightarrow> bool" where
  "cfg_truthy c = (case c of CNone \<Rightarrow> False | CStr s \<Rightarrow> s \<noteq> []
     | CList xs \<Rightarrow> xs \<noteq> [] | CTuple xs \<Rightarrow> xs \<noteq> [])"

definition is_list :: "cfg \<Rightarrow> bool" where
  "is_list c = (case c of CList xs \<Rightarrow> True | _ \<Rightarrow> False)"

definition got_truthy :: "got \<Rightarrow> bool" where
  "got_truthy g = (case g of GEvent e \<Rightarrow> True | _ \<Rightarrow> False)"

text \<open>\<open>s.endswith(suf)\<close>\<close>

definition endswith :: "string \<Rightarrow> string \<Rightarrow> bool" where
  "endswith s suf = (length suf \<le> length s \<and> drop (length s - length suf) s = suf)"

text \<open>\<open>x in s\<close> for two strings: \<open>x\<close> occurs in \<open>s\<close> as a substring.\<close>

fun str_contains :: "string \<Rightarrow> string \<Rightarrow> bool" where
  "str_contains [] x = (x = [])"
| "str_contains (c # cs) x = (take (length x) (c # cs) = x \<or> str_contains cs x)"

text \<open>
  \<open>v in funs\<close>: membership by equality in a list or a tuple of strings, the substring
  test in a string, which raises \<open>TypeError\<close> when \<open>v\<close> is not a string, and
  \<open>TypeError\<close> in \<open>None\<close>.
\<close>

definition py_in :: "val \<Rightarrow> cfg \<Rightarrow> error + bool" where
  "py_in v c = (case c of
       CNone \<Rightarrow> Inl TypeError
     | CStr s \<Rightarrow> (case v of VStr x \<Rightarrow> Inr (str_contains s x) | _ \<Rightarrow> Inl TypeError)
     | CList xs \<Rightarrow> (case v of VStr x \<Rightarrow> Inr (x \<in> set xs) | _ \<Rightarrow> Inr False)
     | CTuple xs \<Rightarrow> (case v of VStr x \<Rightarrow> Inr (x \<in> set xs) | _ \<Rightarrow> Inr False))"

subsection \<open>The filter of \<open>start\<close> (lines 112 to 122)\<close>

text \<open>
  The loop over the patterns (lines 114 to 117): every pattern is tried, and
  \<open>found_match\<close> is set at each one that matches.
\<close>

fun tag_loop :: "(string \<Rightarrow> string \<Rightarrow> bool) \<Rightarrow> string \<Rightarrow> string list \<Rightarrow> bool \<Rightarrow> bool" where
  "tag_loop m t [] found_match = found_match"
| "tag_loop m t (p # ps) found_match =
     tag_loop m t ps (if m t p then True else found_match)"

text \<open>The value of \<open>publish\<close> after the block on the tags (lines 112 to 118).\<close>

definition publish_tags :: "env \<Rightarrow> cfg \<Rightarrow> event \<Rightarrow> bool" where
  "publish_tags E tags ev =
     (if cfg_truthy tags \<and> is_list tags
      then (case tags of CList ps \<Rightarrow> tag_loop (fnmatch E) (ev_tag ev) ps False | _ \<Rightarrow> True)
      else True)"

text \<open>
  The block on the functions (lines 119 to 121), from the value of \<open>publish\<close> before
  it to the value after it, or the exception raised by \<open>in\<close>.
\<close>

definition publish_funs :: "cfg \<Rightarrow> event \<Rightarrow> bool \<Rightarrow> error + bool" where
  "publish_funs funs ev p =
     (if cfg_truthy funs
      then (case ev_data ev ''fun'' of
              None \<Rightarrow> Inr p
            | Some v \<Rightarrow>
                (case py_in v funs of
                   Inl e \<Rightarrow> Inl e
                 | Inr b \<Rightarrow> Inr (if \<not> b then False else p)))
      else Inr p)"

text \<open>
  The value of \<open>publish\<close> at line 122, or the exception raised on the way
  (lines 112 to 121).
\<close>

definition publish :: "env \<Rightarrow> cfg \<Rightarrow> cfg \<Rightarrow> event \<Rightarrow> error + bool" where
  "publish E funs tags ev = publish_funs funs ev (publish_tags E tags ev)"

subsection \<open>\<open>_logstash\<close> (lines 58 to 71)\<close>

definition HEADERS :: "(string \<times> string) list" where
  "HEADERS = [(''Content-Type'', ''application/json'')]"

text \<open>
  The arguments are evaluated first, so a \<open>dumps\<close> that raises leaves no query; then
  the one call of \<open>query\<close>, whose result is returned. \<open>k\<close> is the number of queries
  issued before.
\<close>

definition logstash :: "env \<Rightarrow> nat \<Rightarrow> cfg \<Rightarrow> (string \<rightharpoonup> val) \<Rightarrow> action list \<times> (error + response)" where
  "logstash E k url d =
     (case dumps E d of
        Inl e \<Rightarrow> ([], Inl e)
      | Inr body \<Rightarrow>
          (let r = \<lparr>req_url = url, req_method = ''POST'', req_header_dict = HEADERS,
                    req_data = body, req_decode = True, req_status = True\<rparr>
           in ([Query r], query E k r)))"

subsection \<open>\<open>start\<close> (lines 79 to 123)\<close>

text \<open>
  One pass through the body of the loop for what \<open>get_event\<close> returned (lines 111 to
  123): the actions, and the exception that left the loop, if any. The result of
  \<open>_logstash\<close> is dropped.
\<close>

definition iteration :: "env \<Rightarrow> cfg \<Rightarrow> cfg \<Rightarrow> cfg \<Rightarrow> nat \<Rightarrow> got \<Rightarrow> action list \<times> error option" where
  "iteration E url funs tags k g =
     (if got_truthy g
      then (case g of
              GEvent ev \<Rightarrow>
                (case publish E funs tags ev of
                   Inl e \<Rightarrow> ([], Some e)
                 | Inr False \<Rightarrow> ([], None)
                 | Inr True \<Rightarrow>
                     (case logstash E k url (ev_data ev) of
                        (acts, Inl e) \<Rightarrow> (Logstash url (ev_data ev) # acts, Some e)
                      | (acts, Inr r) \<Rightarrow> (Logstash url (ev_data ev) # acts, None)))
            | _ \<Rightarrow> ([], None))
      else ([], None))"

text \<open>The queries in a list of actions, and the calls of \<open>_logstash\<close> in it.\<close>

fun queries :: "action list \<Rightarrow> request list" where
  "queries [] = []"
| "queries (Query r # acts) = r # queries acts"
| "queries (a # acts) = queries acts"

fun deliveries :: "action list \<Rightarrow> (cfg \<times> (string \<rightharpoonup> val)) list" where
  "deliveries [] = []"
| "deliveries (Logstash u d # acts) = (u, d) # deliveries acts"
| "deliveries (a # acts) = deliveries acts"

text \<open>
  The loop (lines 109 to 123) on a finite prefix of what the bus yields, each element
  either an exception raised by \<open>get_event\<close> or its result.
\<close>

fun loop :: "env \<Rightarrow> cfg \<Rightarrow> cfg \<Rightarrow> cfg \<Rightarrow> nat \<Rightarrow> (error + got) list \<Rightarrow> action list \<times> status" where
  "loop E url funs tags k [] = ([], Waiting)"
| "loop E url funs tags k (Inl e # feed) = ([GetEvent], Aborted e)"
| "loop E url funs tags k (Inr g # feed) =
     (case iteration E url funs tags k g of
        (acts, Some e) \<Rightarrow> (GetEvent # acts, Aborted e)
      | (acts, None) \<Rightarrow>
          (case loop E url funs tags (k + length (queries acts)) feed of
             (rest, st) \<Rightarrow> (GetEvent # acts @ rest, st)))"

text \<open>
  The body of \<open>start\<close>: the role from the identity (lines 99 to 102), the subscription
  (lines 103 to 108), closed by the \<open>with\<close> statement when an exception leaves the loop,
  and the loop.
\<close>

definition start :: "env \<Rightarrow> opts \<Rightarrow> cfg \<Rightarrow> cfg \<Rightarrow> cfg \<Rightarrow> (error + got) list \<Rightarrow> action list \<times> status" where
  "start E os url funs tags feed =
     (case opt_id os of
        None \<Rightarrow> ([], Aborted AttributeError)
      | Some i \<Rightarrow>
          (let i_role = (if endswith i ''_master'' then Master else Minion) in
           case opt_sock_dir os of
             None \<Rightarrow> ([], Aborted KeyError)
           | Some sd \<Rightarrow>
               (case opt_transport os of
                  None \<Rightarrow> ([], Aborted KeyError)
                | Some tr \<Rightarrow>
                    (case loop E url funs tags 0 feed of
                       (acts, Waiting) \<Rightarrow> (Subscribe i_role sd tr # acts, Waiting)
                     | (acts, Aborted e) \<Rightarrow> (Subscribe i_role sd tr # acts @ [Close], Aborted e)))))"

text \<open>
  A call of \<open>start\<close> with keyword arguments, as the host makes it from the engine's
  configuration. Python binds the arguments before the body runs: a keyword that is no
  parameter and a missing \<open>url\<close>, the one parameter without a default, raise
  \<open>TypeError\<close>; \<open>funs\<close> and \<open>tags\<close> default to \<open>None\<close>.
\<close>

definition call_start :: "env \<Rightarrow> opts \<Rightarrow> (string \<times> cfg) list \<Rightarrow> (error + got) list \<Rightarrow> action list \<times> status" where
  "call_start E os kwargs feed =
     (if \<exists>k \<in> set (map fst kwargs). k \<notin> {''url'', ''funs'', ''tags''}
      then ([], Aborted TypeError)
      else (case map_of kwargs ''url'' of
              None \<Rightarrow> ([], Aborted TypeError)
            | Some url \<Rightarrow>
                start E os url
                  (case map_of kwargs ''funs'' of None \<Rightarrow> CNone | Some f \<Rightarrow> f)
                  (case map_of kwargs ''tags'' of None \<Rightarrow> CNone | Some t \<Rightarrow> t)
                  feed))"

text \<open>
  An event is forwarded when the pass through the loop's body that handles it calls
  \<open>_logstash\<close> once, with the URL and the event's data.
\<close>

definition forwarded :: "env \<Rightarrow> cfg \<Rightarrow> cfg \<Rightarrow> cfg \<Rightarrow> nat \<Rightarrow> event \<Rightarrow> bool" where
  "forwarded E url funs tags k ev =
     (deliveries (fst (iteration E url funs tags k (GEvent ev))) = [(url, ev_data ev)])"

text \<open>
  An element of the feed is accepted when it is an event that the block on the tags
  leaves publishable and that the block on the functions does not reject.
\<close>

definition accepted :: "env \<Rightarrow> cfg \<Rightarrow> cfg \<Rightarrow> error + got \<Rightarrow> bool" where
  "accepted E funs tags x =
     (case x of Inr (GEvent ev) \<Rightarrow> publish_tags E tags ev \<and> publish_funs funs ev True = Inr True
      | _ \<Rightarrow> False)"

subsection \<open>A glob matcher for the examples\<close>

text \<open>
  Modelled from the spec: \<open>fnmatch.fnmatch\<close> belongs to Python's standard library, not to
  the repository, and the theorems below hold for any matcher. The examples need one to
  run, so here is a matcher with the semantics the spec gives: \<open>*\<close> any run of
  characters, \<open>?\<close> one character, \<open>[...]\<close> a character class (single characters and
  ranges, negated by a leading \<open>!\<close>; a \<open>]\<close> right after the opening is a member; a
  \<open>[\<close> that is never closed stands for itself), any other character itself.
\<close>

datatype gtok = TStar | TAny | TLit char | TClass bool "(char \<times> char) list"

fun find_close :: "string \<Rightarrow> nat \<Rightarrow> nat option" where
  "find_close [] n = None"
| "find_close (c # cs) n = (if c = CHR '']'' then Some n else find_close cs (Suc n))"

definition class_end :: "string \<Rightarrow> nat option" where
  "class_end cs =
     (let j = (if take 1 cs = ''!'' then 1 else 0);
          j' = (if take 1 (drop j cs) = '']'' then Suc j else j)
      in find_close (drop j' cs) j')"

fun class_items :: "string \<Rightarrow> (char \<times> char) list" where
  "class_items (a # m # b # cs) =
     (if m = CHR ''-'' then (a, b) # class_items cs else (a, a) # class_items (m # b # cs))"
| "class_items (a # cs) = (a, a) # class_items cs"
| "class_items [] = []"

definition class_tok :: "string \<Rightarrow> gtok" where
  "class_tok stuff =
     (if take 1 stuff = ''!'' then TClass True (class_items (drop 1 stuff))
      else TClass False (class_items stuff))"

text \<open>The tokens of a pattern; \<open>skip\<close> counts the characters a class has used up.\<close>

fun tokens :: "nat \<Rightarrow> string \<Rightarrow> gtok list" where
  "tokens skip [] = []"
| "tokens (Suc skip) (c # cs) = tokens skip cs"
| "tokens 0 (c # cs) =
     (if c = CHR ''*'' then TStar # tokens 0 cs
      else if c = CHR ''?'' then TAny # tokens 0 cs
      else if c = CHR ''['' then
        (case class_end cs of
           None \<Rightarrow> TLit c # tokens 0 cs
         | Some j \<Rightarrow> class_tok (take j cs) # tokens (Suc j) cs)
      else TLit c # tokens 0 cs)"

definition in_class :: "char \<Rightarrow> (char \<times> char) list \<Rightarrow> bool" where
  "in_class c items =
     (\<exists>(lo, hi) \<in> set items. (of_char lo :: nat) \<le> of_char c \<and> (of_char c :: nat) \<le> of_char hi)"

fun gmatch :: "gtok list \<Rightarrow> string \<Rightarrow> bool" where
  "gmatch [] s = (s = [])"
| "gmatch (TStar # ts) [] = gmatch ts []"
| "gmatch (TStar # ts) (c # cs) = (gmatch ts (c # cs) \<or> gmatch (TStar # ts) cs)"
| "gmatch (TAny # ts) [] = False"
| "gmatch (TAny # ts) (c # cs) = gmatch ts cs"
| "gmatch (TLit a # ts) [] = False"
| "gmatch (TLit a # ts) (c # cs) = (a = c \<and> gmatch ts cs)"
| "gmatch (TClass neg items # ts) [] = False"
| "gmatch (TClass neg items # ts) (c # cs) = (in_class c items \<noteq> neg \<and> gmatch ts cs)"

definition glob :: "string \<Rightarrow> string \<Rightarrow> bool" where
  "glob name pat = gmatch (tokens 0 pat) name"

subsection \<open>Example collaborators, events and configurations\<close>

text \<open>
  A serializer for the data of the examples, which have at most the key \<open>fun\<close>: it
  writes a string and raises on any other value, as the real one does on a byte string.
  Three HTTP clients: one whose server answers 200, one whose server answers 500, one that
  raises on a connection that cannot be made.
\<close>

definition ex_dumps :: "(string \<rightharpoonup> val) \<Rightarrow> error + string" where
  "ex_dumps d =
     (case d ''fun'' of
        None \<Rightarrow> Inr ''{}''
      | Some (VStr f) \<Rightarrow> Inr (''{fun: '' @ f @ ''}'')
      | Some _ \<Rightarrow> Inl (Raised ''TypeError: not JSON serializable''))"

definition query_200 :: "nat \<Rightarrow> request \<Rightarrow> error + response" where
  "query_200 k r = Inr \<lparr>resp_status = 200, resp_body = ''ok''\<rparr>"

definition query_500 :: "nat \<Rightarrow> request \<Rightarrow> error + response" where
  "query_500 k r = Inr \<lparr>resp_status = 500, resp_body = ''Internal Server Error''\<rparr>"

definition query_down :: "nat \<Rightarrow> request \<Rightarrow> error + response" where
  "query_down k r = Inl (Raised ''ConnectionError'')"

definition env_200 :: env where
  "env_200 = \<lparr>fnmatch = glob, dumps = ex_dumps, query = query_200\<rparr>"

definition env_500 :: env where
  "env_500 = \<lparr>fnmatch = glob, dumps = ex_dumps, query = query_500\<rparr>"

definition env_down :: env where
  "env_down = \<lparr>fnmatch = glob, dumps = ex_dumps, query = query_down\<rparr>"

definition ex_url :: cfg where
  "ex_url = CStr ''http://blabla.com/salt-stuff''"

definition ev_new :: event where
  "ev_new = \<lparr>ev_tag = ''salt/job/123/new'', ev_data = [''fun'' \<mapsto> VStr ''test.ping'']\<rparr>"

definition ev_ret :: event where
  "ev_ret = \<lparr>ev_tag = ''salt/job/123/ret/0'', ev_data = Map.empty\<rparr>"

definition ev_other :: event where
  "ev_other = \<lparr>ev_tag = ''any/tag'', ev_data = [''fun'' \<mapsto> VStr ''other.fn'']\<rparr>"

definition ev_nofun :: event where
  "ev_nofun = \<lparr>ev_tag = ''any/tag'', ev_data = Map.empty\<rparr>"

definition ev_bytes :: event where
  "ev_bytes = \<lparr>ev_tag = ''any/tag'', ev_data = [''fun'' \<mapsto> VBytes ''test.ping'']\<rparr>"

definition opts_master :: opts where
  "opts_master = \<lparr>opt_id = Some ''salt01_master'', opt_sock_dir = Some ''/var/run/salt/master'',
     opt_transport = Some ''zeromq''\<rparr>"

definition opts_minion :: opts where
  "opts_minion = \<lparr>opt_id = Some ''web01'', opt_sock_dir = Some ''/var/run/salt/minion'',
     opt_transport = Some ''zeromq''\<rparr>"

definition post_of :: "string \<Rightarrow> request" where
  "post_of body = \<lparr>req_url = ex_url, req_method = ''POST'',
     req_header_dict = [(''Content-Type'', ''application/json'')], req_data = body,
     req_decode = True, req_status = True\<rparr>"

subsection \<open>The filter\<close>

lemma tag_loop_eq: "tag_loop m t ps b = (b \<or> (\<exists>p \<in> set ps. m t p))"
  by (induction ps arbitrary: b) auto

lemma publish_tags_list:
  "publish_tags E (CList ps) ev = (ps = [] \<or> (\<exists>p \<in> set ps. fnmatch E (ev_tag ev) p))"
  by (auto simp: publish_tags_def cfg_truthy_def is_list_def tag_loop_eq)

lemma publish_tags_not_list: "\<not> is_list tags \<Longrightarrow> publish_tags E tags ev"
  by (simp add: publish_tags_def)

lemma publish_tags_none: "publish_tags E CNone ev"
  by (simp add: publish_tags_def is_list_def)

lemma deliveries_logstash: "deliveries (fst (logstash E k url d)) = []"
  by (simp add: logstash_def Let_def split: sum.splits)

lemma queries_logstash:
  "queries (fst (logstash E k url d)) =
     (case dumps E d of Inl e \<Rightarrow> [] | Inr body \<Rightarrow>
        [\<lparr>req_url = url, req_method = ''POST'', req_header_dict = HEADERS,
          req_data = body, req_decode = True, req_status = True\<rparr>])"
  by (simp add: logstash_def Let_def split: sum.splits)

lemma deliveries_iteration:
  "deliveries (fst (iteration E url funs tags k (GEvent ev))) =
     (if publish E funs tags ev = Inr True then [(url, ev_data ev)] else [])"
proof (cases "publish E funs tags ev")
  case (Inl e)
  then show ?thesis by (simp add: iteration_def got_truthy_def)
next
  case (Inr b)
  obtain acts res where l: "logstash E k url (ev_data ev) = (acts, res)"
    by (cases "logstash E k url (ev_data ev)")
  have "deliveries acts = []"
    using deliveries_logstash [of E k url "ev_data ev"] l by simp
  with Inr l show ?thesis
    by (cases b; cases res) (simp_all add: iteration_def got_truthy_def)
qed

lemma forwarded_iff: "forwarded E url funs tags k ev \<longleftrightarrow> publish E funs tags ev = Inr True"
  by (simp add: forwarded_def deliveries_iteration)

lemma publish_funs_falsy: "\<not> cfg_truthy funs \<Longrightarrow> publish_funs funs ev p = Inr p"
  by (simp add: publish_funs_def)

lemma publish_funs_no_fun: "ev_data ev ''fun'' = None \<Longrightarrow> publish_funs funs ev p = Inr p"
  by (simp add: publish_funs_def)

lemma publish_funs_list:
  "ev_data ev ''fun'' = Some v \<Longrightarrow> F \<noteq> [] \<Longrightarrow>
   publish_funs (CList F) ev p = Inr (p \<and> (\<exists>x. v = VStr x \<and> x \<in> set F))"
  by (cases v) (simp_all add: publish_funs_def cfg_truthy_def py_in_def)

lemma publish_both:
  "publish E funs tags ev = Inr True \<longleftrightarrow>
     publish_tags E tags ev \<and> publish_funs funs ev True = Inr True"
  by (auto simp: publish_def publish_funs_def split: option.splits sum.splits if_splits)

text \<open>
  Claim C1. With no function allow-list configured (\<open>funs\<close> is \<open>None\<close> or empty), an
  event is forwarded whenever the patterns are absent, and for a list \<open>P\<close> of patterns
  it is forwarded if and only if \<open>P\<close> is empty or \<open>fnmatch\<close> matches the event's tag
  against at least one pattern of \<open>P\<close>.
\<close>

theorem tag_filtering:
  "\<not> cfg_truthy funs \<Longrightarrow>
     forwarded E url funs CNone k ev \<and>
     (forwarded E url funs (CList P) k ev \<longleftrightarrow>
        (P = [] \<or> (\<exists>p \<in> set P. fnmatch E (ev_tag ev) p)))"
  by (simp add: forwarded_iff publish_def publish_funs_falsy publish_tags_none publish_tags_list)

lemma glob_new: "glob ''salt/job/123/new'' ''salt/job/*/new''"
  by (simp add: glob_def)

lemma glob_ret: "\<not> glob ''salt/job/123/ret/0'' ''salt/job/*/new''"
  by (simp add: glob_def)

text \<open>
  With the pattern \<open>salt/job/*/new\<close> the event tagged \<open>salt/job/123/new\<close> is forwarded
  and the one tagged \<open>salt/job/123/ret/0\<close> is dropped; with no pattern the latter is
  forwarded.
\<close>

theorem tag_filtering_witness:
  "\<not> cfg_truthy CNone \<and>
   forwarded env_200 ex_url CNone (CList [''salt/job/*/new'']) 0 ev_new \<and>
   \<not> forwarded env_200 ex_url CNone (CList [''salt/job/*/new'']) 0 ev_ret \<and>
   forwarded env_200 ex_url CNone (CList []) 0 ev_ret"
  using tag_filtering [where funs = CNone and E = env_200 and url = ex_url and k = 0
      and ev = ev_new and P = "[''salt/job/*/new'']"]
    tag_filtering [where funs = CNone and E = env_200 and url = ex_url and k = 0
      and ev = ev_ret and P = "[''salt/job/*/new'']"]
    tag_filtering [where funs = CNone and E = env_200 and url = ex_url and k = 0
      and ev = ev_ret and P = "[]"]
  by (simp add: cfg_truthy_def env_200_def ev_new_def ev_ret_def glob_new glob_ret)

text \<open>
  Claim C2. The function filter is lenient: for an event whose data has no \<open>fun\<close> key
  the decision is the same whatever \<open>funs\<close> is; for an event whose data has a \<open>fun\<close> key
  and a non-empty allow-list \<open>F\<close>, the event is forwarded only if the value of \<open>fun\<close>
  is a string of \<open>F\<close>.
\<close>

theorem function_filtering:
  "(ev_data ev ''fun'' = None \<longrightarrow>
      forwarded E url funs tags k ev = forwarded E url funs' tags k ev) \<and>
   (ev_data ev ''fun'' = Some v \<and> F \<noteq> [] \<and> forwarded E url (CList F) tags k ev \<longrightarrow>
      (\<exists>x. v = VStr x \<and> x \<in> set F))"
  by (auto simp: forwarded_iff publish_def publish_funs_no_fun publish_funs_list)

text \<open>
  With \<open>funs = [probes.results]\<close> the event without a \<open>fun\<close> field is forwarded and
  the event of \<open>other.fn\<close> is dropped.
\<close>

theorem function_filtering_witness:
  "ev_data ev_nofun ''fun'' = None \<and>
   forwarded env_200 ex_url (CList [''probes.results'']) CNone 0 ev_nofun \<and>
   ev_data ev_other ''fun'' = Some (VStr ''other.fn'') \<and>
   \<not> forwarded env_200 ex_url (CList [''probes.results'']) CNone 0 ev_other"
  using function_filtering [where ev = ev_nofun and E = env_200 and url = ex_url and k = 0
      and funs = "CList [''probes.results'']" and funs' = CNone and tags = CNone]
    function_filtering [where ev = ev_other and E = env_200 and url = ex_url and k = 0
      and v = "VStr ''other.fn''" and F = "[''probes.results'']" and tags = CNone]
  by (simp add: ev_nofun_def ev_other_def forwarded_iff publish_def publish_funs_def
      publish_tags_none cfg_truthy_def)

subsection \<open>The loop\<close>

lemma deliveries_append: "deliveries (xs @ ys) = deliveries xs @ deliveries ys"
  by (induction xs rule: deliveries.induct) simp_all

lemma iteration_falsy: "\<not> got_truthy g \<Longrightarrow> iteration E url funs tags k g = ([], None)"
  by (simp add: iteration_def)

lemma loop_Cons:
  "loop E url funs tags k (Inr g # feed) =
     (case snd (iteration E url funs tags k g) of
        Some e \<Rightarrow> (GetEvent # fst (iteration E url funs tags k g), Aborted e)
      | None \<Rightarrow>
          (GetEvent # fst (iteration E url funs tags k g) @
             fst (loop E url funs tags (k + length (queries (fst (iteration E url funs tags k g)))) feed),
           snd (loop E url funs tags (k + length (queries (fst (iteration E url funs tags k g)))) feed)))"
  by (simp split: prod.splits option.splits)

lemma deliveries_iteration_any:
  "deliveries (fst (iteration E url funs tags k g)) =
     (if accepted E funs tags (Inr g) then [(url, case g of GEvent ev \<Rightarrow> ev_data ev)] else [])"
proof (cases g)
  case (GEvent ev)
  then show ?thesis
    by (simp add: deliveries_iteration accepted_def publish_both)
qed (simp_all add: iteration_falsy got_truthy_def accepted_def)

lemma loop_deliveries_le:
  "length (deliveries (fst (loop E url funs tags k feed))) \<le> length (filter (accepted E funs tags) feed)"
proof (induction feed arbitrary: k)
  case Nil
  then show ?case by simp
next
  case (Cons x feed)
  show ?case
  proof (cases x)
    case (Inl e)
    then show ?thesis by simp
  next
    case (Inr g)
    show ?thesis
    proof (cases "snd (iteration E url funs tags k g)")
      case None
      with Inr Cons.IH [of "k + length (queries (fst (iteration E url funs tags k g)))"]
      show ?thesis
        by (simp add: loop_Cons deliveries_append deliveries_iteration_any del: loop.simps)
    next
      case (Some e)
      with Inr show ?thesis
        by (simp add: loop_Cons deliveries_iteration_any del: loop.simps)
    qed
  qed
qed

lemma loop_deliveries_waiting:
  "snd (loop E url funs tags k feed) = Waiting \<Longrightarrow>
     length (deliveries (fst (loop E url funs tags k feed))) = length (filter (accepted E funs tags) feed)"
proof (induction feed arbitrary: k)
  case Nil
  then show ?case by simp
next
  case (Cons x feed)
  show ?case
  proof (cases x)
    case (Inl e)
    with Cons.prems show ?thesis by simp
  next
    case (Inr g)
    show ?thesis
    proof (cases "snd (iteration E url funs tags k g)")
      case None
      with Inr Cons.prems
      have "snd (loop E url funs tags (k + length (queries (fst (iteration E url funs tags k g)))) feed) = Waiting"
        by (simp add: loop_Cons del: loop.simps)
      from Cons.IH [OF this] Inr None show ?thesis
        by (simp add: loop_Cons deliveries_append deliveries_iteration_any del: loop.simps)
    next
      case (Some e)
      with Inr Cons.prems show ?thesis
        by (simp add: loop_Cons del: loop.simps)
    qed
  qed
qed

text \<open>
  Claim C3. For an event pulled from the bus, \<open>_logstash\<close> is called if and only if
  the block on the tags and the block on the functions both accept it, and then once, with
  the URL and the event's data. Over a whole feed there are never more calls than accepted
  events, and exactly as many when no exception has left the loop.
\<close>

theorem conjunction_once:
  "deliveries (fst (iteration E url funs tags k (GEvent ev))) =
     (if publish_tags E tags ev \<and> publish_funs funs ev True = Inr True
      then [(url, ev_data ev)] else []) \<and>
   length (deliveries (fst (loop E url funs tags k feed))) \<le> length (filter (accepted E funs tags) feed) \<and>
   (snd (loop E url funs tags k feed) = Waiting \<longrightarrow>
      length (deliveries (fst (loop E url funs tags k feed))) = length (filter (accepted E funs tags) feed))"
  by (simp add: deliveries_iteration publish_both loop_deliveries_le loop_deliveries_waiting)


lemmas ex_defs = env_200_def env_500_def env_down_def ex_dumps_def query_200_def query_500_def
  query_down_def ev_new_def ev_ret_def ev_other_def ev_nofun_def ev_bytes_def

lemmas run_defs = iteration_def publish_def publish_funs_def publish_tags_def cfg_truthy_def
  is_list_def got_truthy_def logstash_def HEADERS_def py_in_def accepted_def

lemma glob_any: "\<not> glob ''any/tag'' ''salt/job/*/new''"
  by (simp add: glob_def)

text \<open>
  With \<open>tags = [salt/job/*/new]\<close> and \<open>funs = [test.ping]\<close>: of four results of
  \<open>get_event\<close> one is delivered, once.
\<close>

theorem conjunction_once_witness:
  "deliveries (fst (iteration env_200 ex_url (CList [''test.ping'']) (CList [''salt/job/*/new'']) 0
      (GEvent ev_new))) = [(ex_url, ev_data ev_new)] \<and>
   deliveries (fst (iteration env_200 ex_url (CList [''test.ping'']) (CList [''salt/job/*/new'']) 0
      (GEvent ev_other))) = [] \<and>
   snd (loop env_200 ex_url (CList [''test.ping'']) (CList [''salt/job/*/new'']) 0
      [Inr (GEvent ev_new), Inr (GEvent ev_ret), Inr GNone, Inr (GEvent ev_other)]) = Waiting \<and>
   length (deliveries (fst (loop env_200 ex_url (CList [''test.ping'']) (CList [''salt/job/*/new'']) 0
      [Inr (GEvent ev_new), Inr (GEvent ev_ret), Inr GNone, Inr (GEvent ev_other)]))) = 1"
  using conjunction_once [where E = env_200 and url = ex_url and funs = "CList [''test.ping'']"
      and tags = "CList [''salt/job/*/new'']" and k = 0 and ev = ev_new
      and feed = "[Inr (GEvent ev_new), Inr (GEvent ev_ret), Inr GNone, Inr (GEvent ev_other)]"]
    conjunction_once [where E = env_200 and url = ex_url and funs = "CList [''test.ping'']"
      and tags = "CList [''salt/job/*/new'']" and k = 0 and ev = ev_other and feed = "[]"]
  by (simp add: run_defs ex_defs glob_new glob_ret glob_any)

subsection \<open>Delivery\<close>

text \<open>
  Claim C4, as amended. For an accepted event: when the payload serializes and the HTTP
  call returns a response, whatever its status, the loop goes on with the rest of the
  feed; when the HTTP call raises, or the serializer raises, the exception leaves the loop,
  since \<open>start\<close> and \<open>_logstash\<close> have no handler.
\<close>

theorem returned_delivery_keeps_loop:
  "publish E funs tags ev = Inr True \<Longrightarrow>
   (dumps E (ev_data ev) = Inr body \<and>
    r = \<lparr>req_url = url, req_method = ''POST'', req_header_dict = HEADERS, req_data = body,
          req_decode = True, req_status = True\<rparr> \<and>
    query E k r = Inr resp \<longrightarrow>
      loop E url funs tags k (Inr (GEvent ev) # feed) =
        (GetEvent # Logstash url (ev_data ev) # Query r # fst (loop E url funs tags (Suc k) feed),
         snd (loop E url funs tags (Suc k) feed))) \<and>
   (dumps E (ev_data ev) = Inr body \<and>
    r = \<lparr>req_url = url, req_method = ''POST'', req_header_dict = HEADERS, req_data = body,
          req_decode = True, req_status = True\<rparr> \<and>
    query E k r = Inl e \<longrightarrow>
      loop E url funs tags k (Inr (GEvent ev) # feed) =
        ([GetEvent, Logstash url (ev_data ev), Query r], Aborted e)) \<and>
   (dumps E (ev_data ev) = Inl e \<longrightarrow>
      loop E url funs tags k (Inr (GEvent ev) # feed) =
        ([GetEvent, Logstash url (ev_data ev)], Aborted e))"
  by (auto simp: iteration_def got_truthy_def logstash_def Let_def split: prod.splits)

text \<open>
  The server answers 500 to the first event; the second event is pulled and delivered.
\<close>

theorem returned_delivery_keeps_loop_witness:
  "publish env_500 CNone CNone ev_new = Inr True \<and>
   dumps env_500 (ev_data ev_new) = Inr ''{fun: test.ping}'' \<and>
   query env_500 0 (post_of ''{fun: test.ping}'') = Inr \<lparr>resp_status = 500, resp_body = ''Internal Server Error''\<rparr> \<and>
   loop env_500 ex_url CNone CNone 0 [Inr (GEvent ev_new), Inr (GEvent ev_nofun)] =
     ([GetEvent, Logstash ex_url (ev_data ev_new), Query (post_of ''{fun: test.ping}''),
       GetEvent, Logstash ex_url (ev_data ev_nofun), Query (post_of ''{}'')], Waiting)"
proof -
  have p: "publish env_500 CNone CNone ev_new = Inr True"
    by (simp add: run_defs)
  have d: "dumps env_500 (ev_data ev_new) = Inr ''{fun: test.ping}''"
    by (simp add: ex_defs)
  have q: "query env_500 0 (post_of ''{fun: test.ping}'') =
      Inr \<lparr>resp_status = 500, resp_body = ''Internal Server Error''\<rparr>"
    by (simp add: ex_defs)
  have r: "post_of ''{fun: test.ping}'' = \<lparr>req_url = ex_url, req_method = ''POST'',
      req_header_dict = HEADERS, req_data = ''{fun: test.ping}'', req_decode = True, req_status = True\<rparr>"
    by (simp add: post_of_def HEADERS_def)
  have rest: "loop env_500 ex_url CNone CNone (Suc 0) [Inr (GEvent ev_nofun)] =
      ([GetEvent, Logstash ex_url (ev_data ev_nofun), Query (post_of ''{}'')], Waiting)"
    by (simp add: run_defs ex_defs post_of_def)
  from returned_delivery_keeps_loop [OF p, where body = "''{fun: test.ping}''"
      and r = "post_of ''{fun: test.ping}''" and url = ex_url and k = 0
      and resp = "\<lparr>resp_status = 500, resp_body = ''Internal Server Error''\<rparr>"
      and feed = "[Inr (GEvent ev_nofun)]"] d q r rest
  have "loop env_500 ex_url CNone CNone 0 [Inr (GEvent ev_new), Inr (GEvent ev_nofun)] =
     ([GetEvent, Logstash ex_url (ev_data ev_new), Query (post_of ''{fun: test.ping}''),
       GetEvent, Logstash ex_url (ev_data ev_nofun), Query (post_of ''{}'')], Waiting)"
    by (simp del: loop.simps)
  with p d q show ?thesis by (simp del: loop.simps)
qed

text \<open>
  Claim C4, as stated, fails: an event whose data the serializer rejects ends the loop, and
  so does a connection that cannot be made; in both runs the second event is never pulled.
\<close>

theorem failed_delivery_aborts_loop:
  "loop env_200 ex_url CNone CNone 0 [Inr (GEvent ev_bytes), Inr (GEvent ev_new)] =
     ([GetEvent, Logstash ex_url (ev_data ev_bytes)], Aborted (Raised ''TypeError: not JSON serializable'')) \<and>
   loop env_down ex_url CNone CNone 0 [Inr (GEvent ev_new), Inr (GEvent ev_new)] =
     ([GetEvent, Logstash ex_url (ev_data ev_new), Query (post_of ''{fun: test.ping}'')],
      Aborted (Raised ''ConnectionError''))"
  by (simp add: run_defs ex_defs post_of_def)



lemma queries_iteration_shape:
  "r \<in> set (queries (fst (iteration E url funs tags k g))) \<Longrightarrow>
     \<exists>ev body. g = GEvent ev \<and> dumps E (ev_data ev) = Inr body \<and>
       r = \<lparr>req_url = url, req_method = ''POST'', req_header_dict = HEADERS, req_data = body,
            req_decode = True, req_status = True\<rparr>"
  by (auto simp: iteration_def logstash_def Let_def split: got.splits sum.splits bool.splits prod.splits if_splits)




subsection \<open>Start-up\<close>

lemma endswith_iff: "endswith s suf \<longleftrightarrow> (\<exists>pre. s = pre @ suf)"
proof
  assume "endswith s suf"
  then have "s = take (length s - length suf) s @ suf"
    by (metis append_take_drop_id endswith_def)
  then show "\<exists>pre. s = pre @ suf" ..
next
  assume "\<exists>pre. s = pre @ suf"
  then show "endswith s suf" by (auto simp: endswith_def)
qed

lemma loop_no_subscribe: "Subscribe r a b \<notin> set (fst (loop E url funs tags k feed))"
proof (induction feed arbitrary: k)
  case Nil
  then show ?case by simp
next
  case (Cons x feed)
  have it: "Subscribe r a b \<notin> set (fst (iteration E url funs tags k g))" for g
    by (auto simp: iteration_def logstash_def Let_def
        split: got.splits sum.splits bool.splits prod.splits if_splits)
  show ?case
  proof (cases x)
    case (Inl e)
    then show ?thesis by simp
  next
    case (Inr g)
    with Cons.IH it [of g] show ?thesis
      by (simp add: loop_Cons del: loop.simps split: option.splits)
  qed
qed

text \<open>
  Claim C6. With an identity \<open>i\<close> configured (and the socket directory and the transport
  that the subscription takes), \<open>start\<close> first opens the subscription, as master if
  \<open>i\<close> ends with \<open>_master\<close> and as minion otherwise, and opens no other.
\<close>

theorem role_selection:
  "opt_id os = Some i \<Longrightarrow> opt_sock_dir os = Some sd \<Longrightarrow> opt_transport os = Some tr \<Longrightarrow>
     \<exists>acts. fst (start E os url funs tags feed) =
         Subscribe (if (\<exists>pre. i = pre @ ''_master'') then Master else Minion) sd tr # acts \<and>
       (\<forall>r a b. Subscribe r a b \<notin> set acts)"
proof -
  assume a: "opt_id os = Some i" "opt_sock_dir os = Some sd" "opt_transport os = Some tr"
  obtain acts st where l: "loop E url funs tags 0 feed = (acts, st)"
    by (cases "loop E url funs tags 0 feed")
  have n: "Subscribe r x y \<notin> set acts" for r x y
    using loop_no_subscribe [of r x y E url funs tags 0 feed] l by simp
  show ?thesis
    using a l n by (cases st) (simp_all add: start_def endswith_iff)
qed

text \<open>
  The identity \<open>salt01_master\<close> subscribes as master, \<open>web01\<close> as minion.
\<close>

theorem role_selection_witness:
  "opt_id opts_master = Some ''salt01_master'' \<and> opt_id opts_minion = Some ''web01'' \<and>
   hd (fst (start env_200 opts_master ex_url CNone CNone [])) =
     Subscribe Master ''/var/run/salt/master'' ''zeromq'' \<and>
   hd (fst (start env_200 opts_minion ex_url CNone CNone [])) =
     Subscribe Minion ''/var/run/salt/minion'' ''zeromq''"
proof -
  have m: "(\<exists>pre. ''salt01_master'' = pre @ ''_master'')"
    by (simp add: endswith_iff [symmetric] endswith_def)
  have w: "\<not> (\<exists>pre. ''web01'' = pre @ ''_master'')"
    by (simp add: endswith_iff [symmetric] endswith_def)
  from role_selection [where os = opts_master and i = "''salt01_master''"
      and sd = "''/var/run/salt/master''" and tr = "''zeromq''" and E = env_200 and url = ex_url
      and funs = CNone and tags = CNone and feed = "[]"] m
  have 1: "hd (fst (start env_200 opts_master ex_url CNone CNone [])) =
     Subscribe Master ''/var/run/salt/master'' ''zeromq''"
    by (auto simp: opts_master_def)
  from role_selection [where os = opts_minion and i = "''web01''"
      and sd = "''/var/run/salt/minion''" and tr = "''zeromq''" and E = env_200 and url = ex_url
      and funs = CNone and tags = CNone and feed = "[]"] w
  have 2: "hd (fst (start env_200 opts_minion ex_url CNone CNone [])) =
     Subscribe Minion ''/var/run/salt/minion'' ''zeromq''"
    by (auto simp: opts_minion_def)
  from 1 2 show ?thesis by (simp add: opts_master_def opts_minion_def)
qed

text \<open>
  Claim C7. A call of \<open>start\<close> without \<open>url\<close> raises \<open>TypeError\<close> before the body
  runs: no subscription is opened, no event is pulled, nothing is delivered.
\<close>

theorem missing_url:
  "map_of kwargs ''url'' = None \<Longrightarrow> call_start E os kwargs feed = ([], Aborted TypeError)"
  by (simp add: call_start_def)

text \<open>
  A configuration with \<open>tags\<close> only.
\<close>

theorem missing_url_witness:
  "map_of [(''tags'', CList [''salt/job/*/new''])] ''url'' = None \<and>
   call_start env_200 opts_master [(''tags'', CList [''salt/job/*/new''])] [Inr (GEvent ev_new)] =
     ([], Aborted TypeError)"
  using missing_url [where kwargs = "[(''tags'', CList [''salt/job/*/new''])]" and E = env_200
      and os = opts_master and feed = "[Inr (GEvent ev_new)]"]
  by simp


subsection \<open>Payload, empty results and tags that are no list\<close>

text \<open>
  Claim C8. Every call of \<open>_logstash\<close> made for an event has the event's data as its
  payload, the document of every query is the serialization of that data, and two
  forwarded events with the same data and different tags leave the same trace: the tag is
  no part of what is delivered.
\<close>

theorem payload_is_data:
  "(\<forall>(u, d) \<in> set (deliveries (fst (iteration E url funs tags k (GEvent ev)))).
      u = url \<and> d = ev_data ev) \<and>
   (\<forall>r \<in> set (queries (fst (iteration E url funs tags k (GEvent ev)))).
      dumps E (ev_data ev) = Inr (req_data r)) \<and>
   (forwarded E url funs tags k ev \<and> forwarded E url funs tags k ev' \<and> ev_data ev' = ev_data ev \<longrightarrow>
      iteration E url funs tags k (GEvent ev') = iteration E url funs tags k (GEvent ev))"
proof (intro conjI)
  show "\<forall>(u, d) \<in> set (deliveries (fst (iteration E url funs tags k (GEvent ev)))).
      u = url \<and> d = ev_data ev"
    by (simp add: deliveries_iteration)
  show "\<forall>r \<in> set (queries (fst (iteration E url funs tags k (GEvent ev)))).
      dumps E (ev_data ev) = Inr (req_data r)"
    by (auto dest!: queries_iteration_shape)
  show "forwarded E url funs tags k ev \<and> forwarded E url funs tags k ev' \<and> ev_data ev' = ev_data ev \<longrightarrow>
      iteration E url funs tags k (GEvent ev') = iteration E url funs tags k (GEvent ev)"
    by (simp add: forwarded_iff iteration_def got_truthy_def)
qed

text \<open>
  Two events with empty data and different tags are delivered as the same document.
\<close>

theorem payload_is_data_witness:
  "forwarded env_200 ex_url CNone CNone 0 ev_nofun \<and>
   forwarded env_200 ex_url CNone CNone 0 ev_ret \<and>
   ev_data ev_ret = ev_data ev_nofun \<and> ev_tag ev_ret \<noteq> ev_tag ev_nofun \<and>
   iteration env_200 ex_url CNone CNone 0 (GEvent ev_ret) =
     iteration env_200 ex_url CNone CNone 0 (GEvent ev_nofun) \<and>
   deliveries (fst (iteration env_200 ex_url CNone CNone 0 (GEvent ev_nofun))) = [(ex_url, Map.empty)] \<and>
   queries (fst (iteration env_200 ex_url CNone CNone 0 (GEvent ev_nofun))) = [post_of ''{}'']"
proof -
  have f: "forwarded env_200 ex_url CNone CNone 0 ev_nofun" "forwarded env_200 ex_url CNone CNone 0 ev_ret"
    by (simp_all add: forwarded_iff run_defs)
  have e: "ev_data ev_ret = ev_data ev_nofun" "ev_tag ev_ret \<noteq> ev_tag ev_nofun"
    by (simp_all add: ev_ret_def ev_nofun_def)
  have i: "iteration env_200 ex_url CNone CNone 0 (GEvent ev_ret) =
     iteration env_200 ex_url CNone CNone 0 (GEvent ev_nofun)"
    using payload_is_data [where E = env_200 and url = ex_url and funs = CNone and tags = CNone
        and k = 0 and ev = ev_nofun and ev' = ev_ret] f e by simp
  have d: "deliveries (fst (iteration env_200 ex_url CNone CNone 0 (GEvent ev_nofun))) = [(ex_url, Map.empty)]"
    using f(1) by (simp add: forwarded_def ev_nofun_def)
  have q: "queries (fst (iteration env_200 ex_url CNone CNone 0 (GEvent ev_nofun))) = [post_of ''{}'']"
    by (simp add: run_defs ex_defs post_of_def)
  from f e i d q show ?thesis by simp
qed

text \<open>
  Claim C9. When \<open>get_event\<close> returns \<open>None\<close> or an empty dictionary, the pass does
  nothing, whatever the filters and the collaborators are, and the loop goes on to the
  next call of \<open>get_event\<close>.
\<close>

theorem null_event_skip:
  "g = GNone \<or> g = GEmpty \<Longrightarrow>
     iteration E url funs tags k g = ([], None) \<and>
     loop E url funs tags k (Inr g # feed) =
       (GetEvent # fst (loop E url funs tags k feed), snd (loop E url funs tags k feed))"
  by (auto simp: iteration_def got_truthy_def split: prod.splits)

text \<open>
  Two empty results, then an event, which is delivered.
\<close>

theorem null_event_skip_witness:
  "loop env_200 ex_url CNone CNone 0 [Inr GNone, Inr GEmpty, Inr (GEvent ev_nofun)] =
     ([GetEvent, GetEvent, GetEvent, Logstash ex_url (ev_data ev_nofun), Query (post_of ''{}'')], Waiting)"
proof -
  have l: "loop env_200 ex_url CNone CNone 0 [Inr (GEvent ev_nofun)] =
     ([GetEvent, Logstash ex_url (ev_data ev_nofun), Query (post_of ''{}'')], Waiting)"
    by (simp add: run_defs ex_defs post_of_def)
  from null_event_skip [where g = GEmpty and E = env_200 and url = ex_url and funs = CNone
      and tags = CNone and k = 0 and feed = "[Inr (GEvent ev_nofun)]"] l
  have "loop env_200 ex_url CNone CNone 0 [Inr GEmpty, Inr (GEvent ev_nofun)] =
     ([GetEvent, GetEvent, Logstash ex_url (ev_data ev_nofun), Query (post_of ''{}'')], Waiting)"
    by (simp del: loop.simps)
  with null_event_skip [where g = GNone and E = env_200 and url = ex_url and funs = CNone
      and tags = CNone and k = 0 and feed = "[Inr GEmpty, Inr (GEvent ev_nofun)]"]
  show ?thesis by (simp del: loop.simps)
qed

text \<open>
  Claim C10. When \<open>tags\<close> is truthy and no list (a string, a tuple), the block on the
  tags is skipped: every event passes it, and the pass through the loop is the one made
  with \<open>tags = None\<close>.
\<close>

theorem non_list_tags_bypass:
  "cfg_truthy tags \<Longrightarrow> \<not> is_list tags \<Longrightarrow>
     publish_tags E tags ev \<and>
     publish E funs tags ev = publish E funs CNone ev \<and>
     iteration E url funs tags k g = iteration E url funs CNone k g"
proof -
  assume a: "cfg_truthy tags" "\<not> is_list tags"
  have t: "publish_tags E tags ev'" for ev'
    using a by (simp add: publish_tags_not_list)
  have p: "publish E funs tags ev' = publish E funs CNone ev'" for ev'
    by (simp add: publish_def t publish_tags_none)
  have "iteration E url funs tags k g = iteration E url funs CNone k g"
    by (cases g) (simp_all add: iteration_def p)
  with t p show ?thesis by simp
qed

text \<open>
  The pattern \<open>salt/job/*/new\<close> given as a string or in a tuple lets through an event
  that the same pattern in a list drops.
\<close>

theorem non_list_tags_bypass_witness:
  "cfg_truthy (CStr ''salt/job/*/new'') \<and> \<not> is_list (CStr ''salt/job/*/new'') \<and>
   cfg_truthy (CTuple [''salt/job/*/new'']) \<and> \<not> is_list (CTuple [''salt/job/*/new'']) \<and>
   \<not> fnmatch env_200 (ev_tag ev_ret) ''salt/job/*/new'' \<and>
   publish_tags env_200 (CStr ''salt/job/*/new'') ev_ret \<and>
   publish_tags env_200 (CTuple [''salt/job/*/new'']) ev_ret \<and>
   \<not> publish_tags env_200 (CList [''salt/job/*/new'']) ev_ret"
proof -
  have t: "cfg_truthy (CStr ''salt/job/*/new'')" "\<not> is_list (CStr ''salt/job/*/new'')"
    "cfg_truthy (CTuple [''salt/job/*/new''])" "\<not> is_list (CTuple [''salt/job/*/new''])"
    by (simp_all add: cfg_truthy_def is_list_def)
  have m: "\<not> fnmatch env_200 (ev_tag ev_ret) ''salt/job/*/new''"
    by (simp add: env_200_def ev_ret_def glob_ret)
  have l: "\<not> publish_tags env_200 (CList [''salt/job/*/new'']) ev_ret"
    using m by (simp add: publish_tags_list)
  from non_list_tags_bypass [OF t(1,2), where E = env_200 and ev = ev_ret]
    non_list_tags_bypass [OF t(3,4), where E = env_200 and ev = ev_ret] t m l
  show ?thesis by simp
qed

end
